theory Spec2Isabelle
  imports Complex_Main "HOL-Library.Multiset" "HOL-Library.Char_ord" "HOL-Library.List_Lexorder"
begin

section \<open>Python values shared by both tools\<close>

text \<open>
  Exceptions of the Python source are values: a computation that can raise returns
  \<open>py_error + 'a\<close>, with \<open>Inl\<close> the exception.
\<close>

datatype py_error = KeyError | IndexError | ValueError | OverflowError | ZeroDivisionError

text \<open>\<open>xs[i]\<close> for a literal index \<open>i \<ge> 0\<close>: IndexError out of range.\<close>

definition getitem :: "'a list \<Rightarrow> nat \<Rightarrow> py_error + 'a" where
  "getitem xs i = (if i < length xs then Inr (xs ! i) else Inl IndexError)"

text \<open>\<open>d[k]\<close> on a dict: KeyError on a missing key.\<close>

definition lookup :: "('k \<rightharpoonup> 'v) \<Rightarrow> 'k \<Rightarrow> py_error + 'v" where
  "lookup d k = (case d k of None \<Rightarrow> Inl KeyError | Some v \<Rightarrow> Inr v)"

text \<open>\<open>a // b\<close> on Python ints: floor division, ZeroDivisionError for \<open>b = 0\<close>.\<close>

definition floordiv :: "int \<Rightarrow> int \<Rightarrow> py_error + int" where
  "floordiv a b = (if b = 0 then Inl ZeroDivisionError else Inr (a div b))"

text \<open>
  Text is a list of characters. \<open>isspace\<close> is Python's \<open>str.isspace\<close> on the code
  points below 256 (a \<open>char\<close> here is one such code point): TAB..CR, FS..US, space,
  NEL and NBSP.
\<close>

definition isspace :: "char \<Rightarrow> bool" where
  "isspace c = (let n = (of_char c :: nat) in
     (9 \<le> n \<and> n \<le> 13) \<or> (28 \<le> n \<and> n \<le> 32) \<or> n = 133 \<or> n = 160)"

text \<open>\<open>s.strip()\<close>: whitespace removed at both ends.\<close>

definition strip :: "string \<Rightarrow> string" where
  "strip s = rev (dropWhile isspace (rev (dropWhile isspace s)))"

text \<open>
  \<open>s.split(sep)\<close> for a one-character separator; \<open>cur\<close> is the field being read,
  reversed. The result always has at least one field.
\<close>

fun split_from :: "char \<Rightarrow> string \<Rightarrow> string \<Rightarrow> string list" where
  "split_from sep cur [] = [rev cur]"
| "split_from sep cur (c # cs) =
     (if c = sep then rev cur # split_from sep [] cs else split_from sep (c # cur) cs)"

definition split :: "string \<Rightarrow> char \<Rightarrow> string list" where
  "split s sep = split_from sep [] s"

text \<open>
  \<open>for line in f\<close> on a file opened in text mode: the text (after newline
  translation) cut after every \<open>\n\<close>; a last line without \<open>\n\<close> is yielded when
  it is not empty.
\<close>

fun lines_from :: "string \<Rightarrow> string \<Rightarrow> string list" where
  "lines_from cur [] = (if cur = [] then [] else [rev cur])"
| "lines_from cur (c # cs) =
     (if c = CHR 0x0A then rev (c # cur) # lines_from [] cs else lines_from (c # cur) cs)"

definition readlines :: "string \<Rightarrow> string list" where
  "readlines text = lines_from [] text"

section \<open>tools/check\_log.py\<close>

definition RATES_MS :: "(string \<times> int) list" where
  "RATES_MS = [(''TEMP'', 500), (''HUM'', 700), (''PRESS'', 1200)]"

definition WINDOW_SIZE :: int where
  "WINDOW_SIZE = 5"

text \<open>The three sensors the checks loop over: \<open>("TEMP","HUM","PRESS")\<close>.\<close>

definition SENSORS :: "string list" where
  "SENSORS = [''TEMP'', ''HUM'', ''PRESS'']"

text \<open>Body of the loop of lines 43-45: \<open>raw = duration_ms // ms; max(1, raw - 1)\<close>.\<close>

definition expected_count :: "int \<Rightarrow> int \<Rightarrow> py_error + int" where
  "expected_count duration_ms ms =
     (case floordiv duration_ms ms of
        Inl e \<Rightarrow> Inl e
      | Inr raw \<Rightarrow> Inr (max 1 (raw - 1)))"

text \<open>The loop of lines 42-45 over \<open>RATES_MS.items()\<close>, filling the dict \<open>expected\<close>.\<close>

fun fill_expected ::
  "int \<Rightarrow> (string \<times> int) list \<Rightarrow> (string \<rightharpoonup> int) \<Rightarrow> py_error + (string \<rightharpoonup> int)" where
  "fill_expected duration_ms [] expected = Inr expected"
| "fill_expected duration_ms ((k, ms) # items) expected =
     (case expected_count duration_ms ms of
        Inl e \<Rightarrow> Inl e
      | Inr n \<Rightarrow> fill_expected duration_ms items (expected(k \<mapsto> n)))"

text \<open>
  What the script prints, as data: the error lines of checks 1 and 2 (stderr), the
  \<open>OK: TEMP ALERTs found\<close> line (stdout), the read error of line 72 and the two final
  verdicts. The report of lines 76-86 is formatting only and is left out.
\<close>

datatype message =
    SampleCountTooLow string int int
  | NoTempAlert int int
  | TempAlertsFound int
  | ErrorReadingLog py_error
  | CheckFailed
  | CheckPassed

text \<open>The counters of lines 48-50.\<close>

record counts =
  sample_counts :: "string \<rightharpoonup> int"
  alert_counts :: "string \<rightharpoonup> int"
  total_lines :: int

definition initial_counts :: counts where
  "initial_counts =
     \<lparr> sample_counts = [''TEMP'' \<mapsto> 0, ''HUM'' \<mapsto> 0, ''PRESS'' \<mapsto> 0],
       alert_counts = [''TEMP'' \<mapsto> 0, ''HUM'' \<mapsto> 0, ''PRESS'' \<mapsto> 0],
       total_lines = 0 \<rparr>"

text \<open>\<open>d[k] += 1\<close>: a read of \<open>d[k]\<close>, then a store.\<close>

definition increment :: "(string \<rightharpoonup> int) \<Rightarrow> string \<Rightarrow> py_error + (string \<rightharpoonup> int)" where
  "increment d k = (case lookup d k of Inl e \<Rightarrow> Inl e | Inr c \<Rightarrow> Inr (d(k \<mapsto> c + 1)))"

text \<open>The body of the loop over the file, lines 55-67.\<close>

definition count_line :: "string \<Rightarrow> counts \<Rightarrow> py_error + counts" where
  "count_line raw_line st =
     (let st1 = st\<lparr>total_lines := total_lines st + 1\<rparr>;
          line = strip raw_line
      in if line = [] then Inr st1
         else
           (let parts = split line (CHR ''|'')
            in case getitem parts 0 of
                 Inl e \<Rightarrow> Inl e
               | Inr p0 \<Rightarrow>
                   if p0 = ''SAMPLE'' \<and> 4 \<le> length parts then
                     (case getitem parts 1 of
                        Inl e \<Rightarrow> Inl e
                      | Inr typ \<Rightarrow>
                          if sample_counts st1 typ \<noteq> None then
                            (case increment (sample_counts st1) typ of
                               Inl e \<Rightarrow> Inl e
                             | Inr d \<Rightarrow> Inr (st1\<lparr>sample_counts := d\<rparr>))
                          else Inr st1)
                   else if p0 = ''ALERT'' \<and> 5 \<le> length parts then
                     (case getitem parts 1 of
                        Inl e \<Rightarrow> Inl e
                      | Inr typ \<Rightarrow>
                          if alert_counts st1 typ \<noteq> None then
                            (case increment (alert_counts st1) typ of
                               Inl e \<Rightarrow> Inl e
                             | Inr d \<Rightarrow> Inr (st1\<lparr>alert_counts := d\<rparr>))
                          else Inr st1)
                   else Inr st1))"

fun count_lines :: "string list \<Rightarrow> counts \<Rightarrow> py_error + counts" where
  "count_lines [] st = Inr st"
| "count_lines (l # ls) st =
     (case count_line l st of Inl e \<Rightarrow> Inl e | Inr st' \<Rightarrow> count_lines ls st')"

text \<open>The verdict so far (\<open>ok\<close>) and what has been printed.\<close>

record report =
  ok :: bool
  stderr :: "message list"
  stdout :: "message list"

text \<open>Check 1, lines 89-93: the loop over \<open>("TEMP","HUM","PRESS")\<close>.\<close>

fun check_sample_counts ::
  "string list \<Rightarrow> (string \<rightharpoonup> int) \<Rightarrow> (string \<rightharpoonup> int) \<Rightarrow> report \<Rightarrow> py_error + report" where
  "check_sample_counts [] sc ex r = Inr r"
| "check_sample_counts (k # ks) sc ex r =
     (case lookup sc k of
        Inl e \<Rightarrow> Inl e
      | Inr c \<Rightarrow>
          (case lookup ex k of
             Inl e \<Rightarrow> Inl e
           | Inr n \<Rightarrow>
               if c < n then
                 check_sample_counts ks sc ex
                   (r\<lparr>ok := False, stderr := stderr r @ [SampleCountTooLow k c n]\<rparr>)
               else check_sample_counts ks sc ex r))"

text \<open>Check 2, lines 96-102.\<close>

definition check_alert_policy :: "int \<Rightarrow> (string \<rightharpoonup> int) \<Rightarrow> report \<Rightarrow> py_error + report" where
  "check_alert_policy duration_ms ac r =
     (case lookup (map_of RATES_MS) ''TEMP'' of
        Inl e \<Rightarrow> Inl e
      | Inr temp_ms \<Rightarrow>
          (let min_ms_for_window_temp = WINDOW_SIZE * temp_ms
           in if min_ms_for_window_temp \<le> duration_ms then
                (case lookup ac ''TEMP'' of
                   Inl e \<Rightarrow> Inl e
                 | Inr n \<Rightarrow>
                     if n < 1 then
                       Inr (r\<lparr>ok := False,
                              stderr := stderr r @ [NoTempAlert duration_ms min_ms_for_window_temp]\<rparr>)
                     else Inr (r\<lparr>stdout := stdout r @ [TempAlertsFound n]\<rparr>))
              else Inr r))"

text \<open>
  The whole script from line 41 on, for a log file that exists and holds \<open>text\<close>, and
  \<open>duration_ms = int(duration_s * 1000)\<close> already computed. An exception while the
  file is read is caught at line 71 (exit code 4); one raised anywhere else would leave
  the script, and is the \<open>Inl\<close> of the result.
\<close>

record outcome =
  exit_code :: int
  counted :: counts
  expected :: "string \<rightharpoonup> int"
  printed :: report

definition check_log :: "string \<Rightarrow> int \<Rightarrow> py_error + outcome" where
  "check_log text duration_ms =
     (case fill_expected duration_ms RATES_MS Map.empty of
        Inl e \<Rightarrow> Inl e
      | Inr ex \<Rightarrow>
          (case count_lines (readlines text) initial_counts of
             Inl e \<Rightarrow>
               Inr \<lparr> exit_code = 4, counted = initial_counts, expected = ex,
                     printed = \<lparr> ok = True, stderr = [ErrorReadingLog e], stdout = [] \<rparr> \<rparr>
           | Inr st \<Rightarrow>
               (case check_sample_counts SENSORS (sample_counts st) ex
                       \<lparr> ok = True, stderr = [], stdout = [] \<rparr> of
                  Inl e \<Rightarrow> Inl e
                | Inr r1 \<Rightarrow>
                    (case check_alert_policy duration_ms (alert_counts st) r1 of
                       Inl e \<Rightarrow> Inl e
                     | Inr r2 \<Rightarrow>
                         if \<not> ok r2 then
                           Inr \<lparr> exit_code = 1, counted = st, expected = ex,
                                 printed = r2\<lparr>stderr := stderr r2 @ [CheckFailed]\<rparr> \<rparr>
                         else
                           Inr \<lparr> exit_code = 0, counted = st, expected = ex,
                                 printed = r2\<lparr>stdout := stdout r2 @ [CheckPassed]\<rparr> \<rparr>))))"

section \<open>tools/parse\_logs.py\<close>

subsection \<open>Parsing\<close>

text \<open>
  The dicts appended at lines 62 and 71. The float type \<open>'f\<close> is left open: Python's
  \<open>float(s)\<close> and \<open>int(x)\<close> are parameters \<open>float_of\<close> and \<open>int_of\<close> of the parser,
  each returning the exception it raises (ValueError, OverflowError) as \<open>Inl\<close>.
\<close>

record 'f sample =
  type :: string
  val :: 'f
  ts_ms :: int

record 'f alert = "'f sample" +
  info :: string

text \<open>The body of the \<open>try\<close> of lines 58-62.\<close>

definition sample_of ::
  "(string \<Rightarrow> py_error + 'f) \<Rightarrow> ('f \<Rightarrow> py_error + int) \<Rightarrow> string list \<Rightarrow> py_error + 'f sample" where
  "sample_of float_of int_of parts =
     (case getitem parts 1 of Inl e \<Rightarrow> Inl e | Inr t \<Rightarrow>
       (case getitem parts 2 of Inl e \<Rightarrow> Inl e | Inr p2 \<Rightarrow>
         (case float_of p2 of Inl e \<Rightarrow> Inl e | Inr v \<Rightarrow>
           (case getitem parts 3 of Inl e \<Rightarrow> Inl e | Inr p3 \<Rightarrow>
             (case float_of p3 of Inl e \<Rightarrow> Inl e | Inr x \<Rightarrow>
               (case int_of x of Inl e \<Rightarrow> Inl e | Inr ms \<Rightarrow>
                 Inr \<lparr> type = t, val = v, ts_ms = ms \<rparr>))))))"

text \<open>The body of the \<open>try\<close> of lines 66-71.\<close>

definition alert_of ::
  "(string \<Rightarrow> py_error + 'f) \<Rightarrow> ('f \<Rightarrow> py_error + int) \<Rightarrow> string list \<Rightarrow> py_error + 'f alert" where
  "alert_of float_of int_of parts =
     (case getitem parts 1 of Inl e \<Rightarrow> Inl e | Inr t \<Rightarrow>
       (case getitem parts 2 of Inl e \<Rightarrow> Inl e | Inr p2 \<Rightarrow>
         (case float_of p2 of Inl e \<Rightarrow> Inl e | Inr v \<Rightarrow>
           (case getitem parts 3 of Inl e \<Rightarrow> Inl e | Inr p3 \<Rightarrow>
             (case float_of p3 of Inl e \<Rightarrow> Inl e | Inr x \<Rightarrow>
               (case int_of x of Inl e \<Rightarrow> Inl e | Inr ms \<Rightarrow>
                 (case (if 4 < length parts then getitem parts 4 else Inr []) of Inl e \<Rightarrow> Inl e | Inr i \<Rightarrow>
                   Inr \<lparr> type = t, val = v, ts_ms = ms, info = i \<rparr>)))))))"

text \<open>
  The body of the loop of lines 52-73 on the two lists. An exception inside a \<open>try\<close> is
  caught (\<open>except Exception: continue\<close>); one outside it leaves the function.
\<close>

definition parse_line ::
  "(string \<Rightarrow> py_error + 'f) \<Rightarrow> ('f \<Rightarrow> py_error + int) \<Rightarrow> string
     \<Rightarrow> 'f sample list \<times> 'f alert list \<Rightarrow> py_error + 'f sample list \<times> 'f alert list" where
  "parse_line float_of int_of raw_line st =
     (let samples = fst st; alerts = snd st; line = strip raw_line
      in if line = [] then Inr (samples, alerts)
         else
           (let parts = split line (CHR ''|'')
            in case getitem parts 0 of
                 Inl e \<Rightarrow> Inl e
               | Inr p0 \<Rightarrow>
                   if p0 = ''SAMPLE'' \<and> 4 \<le> length parts then
                     (case sample_of float_of int_of parts of
                        Inl e \<Rightarrow> Inr (samples, alerts)
                      | Inr s \<Rightarrow> Inr (samples @ [s], alerts))
                   else if p0 = ''ALERT'' \<and> 5 \<le> length parts then
                     (case alert_of float_of int_of parts of
                        Inl e \<Rightarrow> Inr (samples, alerts)
                      | Inr a \<Rightarrow> Inr (samples, alerts @ [a]))
                   else Inr (samples, alerts)))"

fun parse_lines ::
  "(string \<Rightarrow> py_error + 'f) \<Rightarrow> ('f \<Rightarrow> py_error + int) \<Rightarrow> string list
     \<Rightarrow> 'f sample list \<times> 'f alert list \<Rightarrow> py_error + 'f sample list \<times> 'f alert list" where
  "parse_lines float_of int_of [] st = Inr st"
| "parse_lines float_of int_of (l # ls) st =
     (case parse_line float_of int_of l st of
        Inl e \<Rightarrow> Inl e
      | Inr st' \<Rightarrow> parse_lines float_of int_of ls st')"

text \<open>
  A pandas DataFrame, as far as the tool uses one: the column names and the rows.
  \<open>pd.DataFrame(records)\<close> on a list of dicts takes its columns from the dicts, so the
  frame of an empty list has no column at all.
\<close>

record 'r frame =
  columns :: "string list"
  rows :: "'r list"

definition DataFrame :: "string list \<Rightarrow> 'r list \<Rightarrow> 'r frame" where
  "DataFrame keys records = \<lparr> columns = (if records = [] then [] else keys), rows = records \<rparr>"

definition SAMPLE_KEYS :: "string list" where
  "SAMPLE_KEYS = [''type'', ''value'', ''ts_ms'']"

definition ALERT_KEYS :: "string list" where
  "ALERT_KEYS = [''type'', ''value'', ''ts_ms'', ''info'']"

text \<open>\<open>parse_log\<close>, lines 48-76, on the text of a file that exists.\<close>

definition parse_log ::
  "(string \<Rightarrow> py_error + 'f) \<Rightarrow> ('f \<Rightarrow> py_error + int) \<Rightarrow> string
     \<Rightarrow> py_error + 'f sample frame \<times> 'f alert frame" where
  "parse_log float_of int_of log_text =
     (case parse_lines float_of int_of (readlines log_text) ([], []) of
        Inl e \<Rightarrow> Inl e
      | Inr st \<Rightarrow> Inr (DataFrame SAMPLE_KEYS (fst st), DataFrame ALERT_KEYS (snd st)))"

subsection \<open>Frames and series\<close>

text \<open>
  From here on a float is a real number: rounding, infinities and NaN inputs are outside
  the model (the log format gives \<open>value\<close> as a decimal number), and a timestamp is an
  unbounded integer. A cell of a result is a number, NaN (what pandas returns where a
  statistic is undefined) or Python's None.
\<close>

datatype cell = Num real | NaN | PyNone

text \<open>\<open>df[name]\<close>: the column, or KeyError when the frame has no such column.\<close>

definition column :: "'r frame \<Rightarrow> string \<Rightarrow> ('r \<Rightarrow> 'a) \<Rightarrow> py_error + 'a list" where
  "column df name sel = (if name \<in> set (columns df) then Inr (map sel (rows df)) else Inl KeyError)"

text \<open>\<open>df[df['type'] == s]\<close>: the rows whose type is \<open>s\<close>, with the same columns.\<close>

definition of_type :: "('f, 'z) sample_scheme frame \<Rightarrow> string \<Rightarrow> py_error + ('f, 'z) sample_scheme frame" where
  "of_type df s =
     (case column df ''type'' type of
        Inl e \<Rightarrow> Inl e
      | Inr ts \<Rightarrow> Inr (df\<lparr>rows := map fst (filter (\<lambda>(r, t). t = s) (zip (rows df) ts))\<rparr>))"

text \<open>\<open>Series.count/min/max/mean/std\<close> on a series without missing values.\<close>

definition series_count :: "real list \<Rightarrow> int" where
  "series_count d = int (length d)"

definition series_min :: "real list \<Rightarrow> cell" where
  "series_min d = (case d of [] \<Rightarrow> NaN | x # xs \<Rightarrow> Num (fold min xs x))"

definition series_max :: "real list \<Rightarrow> cell" where
  "series_max d = (case d of [] \<Rightarrow> NaN | x # xs \<Rightarrow> Num (fold max xs x))"

definition series_mean :: "real list \<Rightarrow> cell" where
  "series_mean d = (if d = [] then NaN else Num (sum_list d / real (length d)))"

text \<open>The sample standard deviation (\<open>ddof = 1\<close>): NaN with fewer than two values.\<close>

definition series_std :: "real list \<Rightarrow> cell" where
  "series_std d =
     (if length d < 2 then NaN
      else (let m = sum_list d / real (length d)
            in Num (sqrt (sum_list (map (\<lambda>x. (x - m)\<^sup>2) d) / real (length d - 1)))))"

subsection \<open>Summary\<close>

record summary_row =
  sensor :: string
  count_n :: int
  min_v :: cell
  max_v :: cell
  mean :: cell
  std :: cell
  alert_count :: int

text \<open>The dict built at lines 92-101 for one sensor \<open>s\<close>.\<close>

definition summary_row_of ::
  "real sample frame \<Rightarrow> real alert frame \<Rightarrow> string \<Rightarrow> py_error + summary_row" where
  "summary_row_of df_samples df_alerts s =
     (case of_type df_samples s of Inl e \<Rightarrow> Inl e | Inr ds \<Rightarrow>
       (case column ds ''value'' val of Inl e \<Rightarrow> Inl e | Inr d \<Rightarrow>
         (case of_type df_alerts s of Inl e \<Rightarrow> Inl e | Inr da \<Rightarrow>
           Inr \<lparr> sensor = s,
                 count_n = series_count d,
                 min_v = (if d \<noteq> [] then series_min d else PyNone),
                 max_v = (if d \<noteq> [] then series_max d else PyNone),
                 mean = (if d \<noteq> [] then series_mean d else PyNone),
                 std = (if d \<noteq> [] then series_std d else PyNone),
                 alert_count = int (length (rows da)) \<rparr>)))"

text \<open>The loop of lines 91-102.\<close>

fun summary_rows ::
  "real sample frame \<Rightarrow> real alert frame \<Rightarrow> string list \<Rightarrow> py_error + summary_row list" where
  "summary_rows df_samples df_alerts [] = Inr []"
| "summary_rows df_samples df_alerts (s # sensors) =
     (case summary_row_of df_samples df_alerts s of
        Inl e \<Rightarrow> Inl e
      | Inr row \<Rightarrow>
          (case summary_rows df_samples df_alerts sensors of
             Inl e \<Rightarrow> Inl e
           | Inr others \<Rightarrow> Inr (row # others)))"

text \<open>
  \<open>summary_csv\<close>, lines 88-105, up to the rows of \<open>df_summary\<close>;
  \<open>sorted(df_samples['type'].unique().tolist())\<close> is the sorted list of the distinct types.
\<close>

definition summary_csv :: "real sample frame \<Rightarrow> real alert frame \<Rightarrow> py_error + summary_row list" where
  "summary_csv df_samples df_alerts =
     (case column df_samples ''type'' type of
        Inl e \<Rightarrow> Inl e
      | Inr ts \<Rightarrow> summary_rows df_samples df_alerts (sort (remdups ts)))"

subsection \<open>Notions used to state the properties of the counting loop\<close>

text \<open>The \<open>|\<close>-separated fields of a line, after \<open>strip()\<close>.\<close>

definition line_fields :: "string \<Rightarrow> string list" where
  "line_fields line = split (strip line) (CHR ''|'')"

text \<open>
  A line is a \<open>tag\<close> record with at least \<open>n\<close> fields: its first field is \<open>tag\<close>
  and it has \<open>n\<close> fields or more; \<open>record_typ\<close> is its second field.
\<close>

definition is_record :: "string \<Rightarrow> nat \<Rightarrow> string \<Rightarrow> bool" where
  "is_record tag n line =
     (case line_fields line of [] \<Rightarrow> False | f0 # _ \<Rightarrow> f0 = tag \<and> n \<le> length (line_fields line))"

definition record_typ :: "string \<Rightarrow> string" where
  "record_typ line = line_fields line ! 1"

text \<open>The number of \<open>tag\<close> records of sensor type \<open>k\<close> among the lines.\<close>

definition tally :: "string \<Rightarrow> nat \<Rightarrow> string \<Rightarrow> string list \<Rightarrow> int" where
  "tally tag n k ls = int (length (filter (\<lambda>l. is_record tag n l \<and> record_typ l = k) ls))"

text \<open>One pass of the loop body on one of the two dicts of counters.\<close>

definition bump :: "(string \<rightharpoonup> int) \<Rightarrow> bool \<Rightarrow> string \<Rightarrow> (string \<rightharpoonup> int)" where
  "bump d b k = (if b then (case d k of None \<Rightarrow> d | Some c \<Rightarrow> d(k \<mapsto> c + 1)) else d)"

text \<open>Sensor \<open>k\<close> is flagged: a \<open>sample count too low\<close> line about it was printed.\<close>

definition flagged :: "string \<Rightarrow> message list \<Rightarrow> bool" where
  "flagged k msgs = list_ex (\<lambda>m. case m of SampleCountTooLow k' _ _ \<Rightarrow> k' = k | _ \<Rightarrow> False) msgs"

definition low :: "(string \<rightharpoonup> int) \<Rightarrow> (string \<rightharpoonup> int) \<Rightarrow> string \<Rightarrow> bool" where
  "low sc ex k = (case (sc k, ex k) of (Some c, Some n) \<Rightarrow> c < n | _ \<Rightarrow> False)"

definition low_message :: "(string \<rightharpoonup> int) \<Rightarrow> (string \<rightharpoonup> int) \<Rightarrow> string \<Rightarrow> message" where
  "low_message sc ex k = SampleCountTooLow k (the (sc k)) (the (ex k))"

subsection \<open>Time series and moving average\<close>

text \<open>The frame \<open>d\<close> of \<open>plot_timeseries\<close> once the columns \<open>ts\<close> and \<open>ma\<close> are added.\<close>

record 'f point = "'f sample" +
  ts :: int
  ma :: cell

text \<open>
  \<open>Series.rolling(window, min_periods).mean()\<close>. The window at position \<open>i\<close> holds the
  values at the positions \<open>i - window + 1 .. i\<close> that exist; the mean is NaN when it
  holds fewer than \<open>min_periods\<close> values. pandas refuses a negative window and a
  \<open>min_periods\<close> above the window (ValueError).
\<close>

definition window_at :: "nat \<Rightarrow> 'a list \<Rightarrow> nat \<Rightarrow> 'a list" where
  "window_at w xs i = drop (Suc i - w) (take (Suc i) xs)"

definition rolling_mean :: "int \<Rightarrow> int \<Rightarrow> real list \<Rightarrow> py_error + cell list" where
  "rolling_mean window min_periods xs =
     (if window < 0 then Inl ValueError
      else if window < min_periods then Inl ValueError
      else Inr (map (\<lambda>i. let w = window_at (nat window) xs i
                          in if min_periods \<le> int (length w)
                             then Num (sum_list w / real (length w)) else NaN)
                    [0..<length xs]))"






subsection \<open>Notions used to state the properties of the parser\<close>

text \<open>
  The first field of a line, and whether its value and timestamp fields convert:
  \<open>float(parts[2])\<close> and \<open>int(float(parts[3]))\<close> both return.
\<close>

definition first_field :: "string \<Rightarrow> string" where
  "first_field line = (case line_fields line of [] \<Rightarrow> [] | f0 # _ \<Rightarrow> f0)"

definition converts :: "(string \<Rightarrow> py_error + 'f) \<Rightarrow> ('f \<Rightarrow> py_error + int) \<Rightarrow> string \<Rightarrow> bool" where
  "converts float_of int_of line =
     (let fs = line_fields line
      in 4 \<le> length fs \<and> \<not> isl (float_of (fs ! 2)) \<and> \<not> isl (float_of (fs ! 3))
         \<and> \<not> isl (int_of (projr (float_of (fs ! 3)))))"

text \<open>
  A skipped line, in the words of the specification: blank, or a first field other than
  SAMPLE and ALERT, or too few fields (4 for SAMPLE, 5 for ALERT), or a value or
  timestamp that fails numeric conversion.
\<close>

definition skipped :: "(string \<Rightarrow> py_error + 'f) \<Rightarrow> ('f \<Rightarrow> py_error + int) \<Rightarrow> string \<Rightarrow> bool" where
  "skipped float_of int_of line =
     (strip line = []
      \<or> (first_field line \<noteq> ''SAMPLE'' \<and> first_field line \<noteq> ''ALERT'')
      \<or> (first_field line = ''SAMPLE'' \<and> length (line_fields line) < 4)
      \<or> (first_field line = ''ALERT'' \<and> length (line_fields line) < 5)
      \<or> \<not> converts float_of int_of line)"

text \<open>A line the parser keeps: a SAMPLE or ALERT record whose numeric fields convert.\<close>

definition well_formed_sample :: "(string \<Rightarrow> py_error + 'f) \<Rightarrow> ('f \<Rightarrow> py_error + int) \<Rightarrow> string \<Rightarrow> bool" where
  "well_formed_sample F I l = (is_record ''SAMPLE'' 4 l \<and> converts F I l)"

definition well_formed_alert :: "(string \<Rightarrow> py_error + 'f) \<Rightarrow> ('f \<Rightarrow> py_error + int) \<Rightarrow> string \<Rightarrow> bool" where
  "well_formed_alert F I l = (is_record ''ALERT'' 5 l \<and> converts F I l)"

text \<open>The record a line that is not skipped stands for.\<close>

definition the_sample :: "(string \<Rightarrow> py_error + 'f) \<Rightarrow> ('f \<Rightarrow> py_error + int) \<Rightarrow> string \<Rightarrow> 'f sample" where
  "the_sample float_of int_of line =
     (let fs = line_fields line
      in \<lparr> type = fs ! 1, val = projr (float_of (fs ! 2)),
           ts_ms = projr (int_of (projr (float_of (fs ! 3)))) \<rparr>)"

definition the_alert :: "(string \<Rightarrow> py_error + 'f) \<Rightarrow> ('f \<Rightarrow> py_error + int) \<Rightarrow> string \<Rightarrow> 'f alert" where
  "the_alert float_of int_of line =
     (let fs = line_fields line
      in \<lparr> type = fs ! 1, val = projr (float_of (fs ! 2)),
           ts_ms = projr (int_of (projr (float_of (fs ! 3)))), info = fs ! 4 \<rparr>)"

text \<open>The number of rows of a frame whose type is \<open>k\<close>: the size of the group of \<open>k\<close>.\<close>

definition group_count :: "('f, 'z) sample_scheme frame \<Rightarrow> string \<Rightarrow> int" where
  "group_count df k = int (length (filter (\<lambda>r. type r = k) (rows df)))"

subsection \<open>A conversion for concrete runs\<close>

text \<open>
  Python's \<open>float()\<close> on the plain decimal numerals \<open>[-]digits[.digits]\<close>, and \<open>int()\<close>
  on a real (truncation towards zero). Python's \<open>float()\<close> accepts more (exponents,
  \<open>inf\<close>, \<open>nan\<close>); the theorems below hold for every conversion, and this one only
  runs them on concrete logs, whose numeric fields are plain numerals or no numbers at
  all.
\<close>

definition is_digit :: "char \<Rightarrow> bool" where
  "is_digit c = (let n = (of_char c :: nat) in 48 \<le> n \<and> n \<le> 57)"

definition digits_value :: "string \<Rightarrow> nat" where
  "digits_value s = foldl (\<lambda>a c. 10 * a + ((of_char c :: nat) - 48)) 0 s"

definition unsigned_decimal :: "string \<Rightarrow> py_error + real" where
  "unsigned_decimal s =
     (let ip = takeWhile is_digit s; rest = dropWhile is_digit s
      in if ip = [] then Inl ValueError
         else (case rest of
                 [] \<Rightarrow> Inr (real (digits_value ip))
               | c # fp \<Rightarrow>
                   if c = CHR ''.'' \<and> list_all is_digit fp
                   then Inr (real (digits_value ip) + real (digits_value fp) / 10 ^ length fp)
                   else Inl ValueError))"

definition decimal_float :: "string \<Rightarrow> py_error + real" where
  "decimal_float s =
     (case s of
        [] \<Rightarrow> Inl ValueError
      | c # cs \<Rightarrow>
          if c = CHR ''-'' then
            (case unsigned_decimal cs of Inl e \<Rightarrow> Inl e | Inr x \<Rightarrow> Inr (- x))
          else unsigned_decimal s)"

definition truncate :: "real \<Rightarrow> py_error + int" where
  "truncate x = Inr (if 0 \<le> x then \<lfloor>x\<rfloor> else \<lceil>x\<rceil>)"

text \<open>A two-line log used for concrete runs: one TEMP sample and one unknown line.\<close>

definition demo_log :: string where
  "demo_log = ''SAMPLE|TEMP|21.5|1000'' @ [CHR 0x0A] @ ''GARBAGE|xyz'' @ [CHR 0x0A]"

text \<open>Six HUM samples, two PRESS samples and one TEMP sample.\<close>

definition press_log :: string where
  "press_log =
     concat (replicate 6 (''SAMPLE|HUM|40.0|700'' @ [CHR 0x0A]))
     @ concat (replicate 2 (''SAMPLE|PRESS|1013.2|1200'' @ [CHR 0x0A]))
     @ ''SAMPLE|TEMP|21.5|500'' @ [CHR 0x0A]"

text \<open>
  A log with a blank line, an unknown line, a short SAMPLE line, a SAMPLE line whose value
  is no number, an ALERT line with six fields and a short ALERT line.
\<close>

definition messy_log :: string where
  "messy_log = ''SAMPLE|TEMP|2.5|10'' @ [CHR 0x0A] @ [CHR 0x0A] @ ''GARBAGE|xyz'' @ [CHR 0x0A]
     @ ''SAMPLE|HUM|40'' @ [CHR 0x0A] @ ''SAMPLE|TEMP|abc|15'' @ [CHR 0x0A]
     @ ''ALERT|TEMP|3.5|30|high|extra'' @ [CHR 0x0A] @ ''ALERT|TEMP|3.5|30'' @ [CHR 0x0A]"

text \<open>One SAMPLE line whose value is no number.\<close>

definition bad_number_log :: string where
  "bad_number_log = ''SAMPLE|TEMP|abc|1000'' @ [CHR 0x0A]"

text \<open>An ALERT line whose free text holds a \<open>|\<close>: six fields.\<close>

definition six_field_alert :: string where
  "six_field_alert = ''ALERT|TEMP|3.5|30|high|extra'' @ [CHR 0x0A]"



section \<open>Properties of check\_log.py\<close>

lemma split_from_nonempty: "split_from sep cur s \<noteq> []"
  by (induction s arbitrary: cur) auto

lemma split_nonempty: "split s sep \<noteq> []"
  by (simp add: split_def split_from_nonempty)

lemma split_Nil: "split [] sep = [[]]"
  by (simp add: split_def)

lemma line_fields_nonempty: "line_fields line \<noteq> []"
  by (simp add: line_fields_def split_nonempty)

lemma getitem_0: "xs \<noteq> [] \<Longrightarrow> getitem xs 0 = Inr (hd xs)"
  by (cases xs) (simp_all add: getitem_def)

lemma blank_not_record: "strip line = [] \<Longrightarrow> 0 < n \<Longrightarrow> tag \<noteq> [] \<Longrightarrow> \<not> is_record tag n line"
  by (simp add: is_record_def line_fields_def split_Nil)

lemma count_line_eq:
  "count_line l st = Inr (st\<lparr>total_lines := total_lines st + 1,
      sample_counts := bump (sample_counts st) (is_record ''SAMPLE'' 4 l) (record_typ l),
      alert_counts := bump (alert_counts st) (is_record ''ALERT'' 5 l) (record_typ l)\<rparr>)"
proof (cases "strip l = []")
  case True
  then show ?thesis
    by (simp add: count_line_def bump_def blank_not_record)
next
  case False
  obtain f0 fs where f: "line_fields l = f0 # fs"
    using line_fields_nonempty [of l] by (cases "line_fields l") auto
  then have s: "split (strip l) (CHR ''|'') = f0 # fs"
    by (simp add: line_fields_def)
  show ?thesis
    using False f s
    by (auto simp: count_line_def Let_def getitem_def bump_def is_record_def record_typ_def
        increment_def lookup_def split: option.splits)
qed

lemma tally_Nil: "tally tag n k [] = 0"
  by (simp add: tally_def)

lemma tally_Cons:
  "tally tag n k (l # ls) = (if is_record tag n l \<and> record_typ l = k then 1 else 0) + tally tag n k ls"
  by (simp add: tally_def)

lemma bump_apply:
  "bump d b t k = map_option (\<lambda>c. c + (if b \<and> t = k then 1 else 0)) (d k)"
  by (cases "d k"; cases "d t") (auto simp: bump_def)

lemma count_lines_eq:
  "\<exists>st'. count_lines ls st = Inr st'
     \<and> total_lines st' = total_lines st + int (length ls)
     \<and> (\<forall>k. sample_counts st' k = map_option (\<lambda>c. c + tally ''SAMPLE'' 4 k ls) (sample_counts st k))
     \<and> (\<forall>k. alert_counts st' k = map_option (\<lambda>c. c + tally ''ALERT'' 5 k ls) (alert_counts st k))"
proof (induction ls arbitrary: st)
  case Nil
  show ?case by (simp add: tally_Nil option.map_ident)
next
  case (Cons l ls)
  let ?st1 = "st\<lparr>total_lines := total_lines st + 1,
      sample_counts := bump (sample_counts st) (is_record ''SAMPLE'' 4 l) (record_typ l),
      alert_counts := bump (alert_counts st) (is_record ''ALERT'' 5 l) (record_typ l)\<rparr>"
  from Cons.IH [of ?st1] obtain st' where st': "count_lines ls ?st1 = Inr st'"
    and t: "total_lines st' = total_lines ?st1 + int (length ls)"
    and s: "\<And>k. sample_counts st' k = map_option (\<lambda>c. c + tally ''SAMPLE'' 4 k ls) (sample_counts ?st1 k)"
    and a: "\<And>k. alert_counts st' k = map_option (\<lambda>c. c + tally ''ALERT'' 5 k ls) (alert_counts ?st1 k)"
    by blast
  have "count_lines (l # ls) st = Inr st'"
    using st' by (simp add: count_line_eq)
  moreover have "total_lines st' = total_lines st + int (length (l # ls))"
    using t by simp
  moreover have "sample_counts st' k = map_option (\<lambda>c. c + tally ''SAMPLE'' 4 k (l # ls)) (sample_counts st k)" for k
    by (simp add: s bump_apply tally_Cons option.map_comp comp_def add.assoc)
  moreover have "alert_counts st' k = map_option (\<lambda>c. c + tally ''ALERT'' 5 k (l # ls)) (alert_counts st k)" for k
    by (simp add: a bump_apply tally_Cons option.map_comp comp_def add.assoc)
  ultimately show ?case by blast
qed

lemma fill_expected_RATES:
  "fill_expected d RATES_MS Map.empty =
     Inr [''TEMP'' \<mapsto> max 1 (d div 500 - 1), ''HUM'' \<mapsto> max 1 (d div 700 - 1),
          ''PRESS'' \<mapsto> max 1 (d div 1200 - 1)]"
  by (simp add: RATES_MS_def expected_count_def floordiv_def)

lemma count_lines_initial:
  "\<exists>st. count_lines ls initial_counts = Inr st
     \<and> total_lines st = int (length ls)
     \<and> sample_counts st = [''TEMP'' \<mapsto> tally ''SAMPLE'' 4 ''TEMP'' ls, ''HUM'' \<mapsto> tally ''SAMPLE'' 4 ''HUM'' ls, ''PRESS'' \<mapsto> tally ''SAMPLE'' 4 ''PRESS'' ls]
     \<and> alert_counts st = [''TEMP'' \<mapsto> tally ''ALERT'' 5 ''TEMP'' ls, ''HUM'' \<mapsto> tally ''ALERT'' 5 ''HUM'' ls, ''PRESS'' \<mapsto> tally ''ALERT'' 5 ''PRESS'' ls]"
proof -
  from count_lines_eq [of ls initial_counts] obtain st where st: "count_lines ls initial_counts = Inr st"
    and t: "total_lines st = total_lines initial_counts + int (length ls)"
    and s: "\<And>k. sample_counts st k = map_option (\<lambda>c. c + tally ''SAMPLE'' 4 k ls) (sample_counts initial_counts k)"
    and a: "\<And>k. alert_counts st k = map_option (\<lambda>c. c + tally ''ALERT'' 5 k ls) (alert_counts initial_counts k)"
    by blast
  have "sample_counts st = [''TEMP'' \<mapsto> tally ''SAMPLE'' 4 ''TEMP'' ls, ''HUM'' \<mapsto> tally ''SAMPLE'' 4 ''HUM'' ls, ''PRESS'' \<mapsto> tally ''SAMPLE'' 4 ''PRESS'' ls]"
    by (rule ext) (simp add: s initial_counts_def)
  moreover have "alert_counts st = [''TEMP'' \<mapsto> tally ''ALERT'' 5 ''TEMP'' ls, ''HUM'' \<mapsto> tally ''ALERT'' 5 ''HUM'' ls, ''PRESS'' \<mapsto> tally ''ALERT'' 5 ''PRESS'' ls]"
    by (rule ext) (simp add: a initial_counts_def)
  ultimately show ?thesis using st t by (simp add: initial_counts_def)
qed

lemma check_sample_counts_eq:
  assumes "\<And>k. k \<in> set ks \<Longrightarrow> sc k \<noteq> None \<and> ex k \<noteq> None"
  shows "check_sample_counts ks sc ex r =
     Inr (r\<lparr>ok := ok r \<and> \<not> list_ex (low sc ex) ks,
            stderr := stderr r @ map (low_message sc ex) (filter (low sc ex) ks)\<rparr>)"
  using assms
proof (induction ks arbitrary: r)
  case Nil
  show ?case by simp
next
  case (Cons k ks)
  from Cons.prems [of k] obtain c n where c: "sc k = Some c" and n: "ex k = Some n"
    by auto
  have rest: "\<And>k'. k' \<in> set ks \<Longrightarrow> sc k' \<noteq> None \<and> ex k' \<noteq> None"
    using Cons.prems by simp
  show ?case
  proof (cases "c < n")
    case True
    then show ?thesis
      using c n Cons.IH [OF rest] by (simp add: lookup_def low_def low_message_def)
  next
    case False
    then show ?thesis
      using c n Cons.IH [OF rest] by (simp add: lookup_def low_def low_message_def)
  qed
qed

lemma check_alert_policy_eq:
  assumes "ac ''TEMP'' = Some n"
  shows "check_alert_policy d ac r =
     Inr (if d < 2500 then r
          else if n < 1 then r\<lparr>ok := False, stderr := stderr r @ [NoTempAlert d 2500]\<rparr>
          else r\<lparr>stdout := stdout r @ [TempAlertsFound n]\<rparr>)"
  using assms
  by (simp add: check_alert_policy_def lookup_def RATES_MS_def WINDOW_SIZE_def)

text \<open>
  C2. With \<open>WINDOW_SIZE = 5\<close> and the TEMP rate 500 ms, the alert-policy check leaves
  the verdict untouched for every TEMP alert count (zero included) when
  \<open>duration_ms < 2500\<close>; when \<open>duration_ms \<ge> 2500\<close> it fails if and only if the TEMP alert
  count is zero. Only the TEMP entry of the alert counts is read: the HUM and PRESS
  counts are arbitrary here.
\<close>

theorem alert_policy:
  assumes "ac ''TEMP'' = Some n" and "0 \<le> n"
  shows "WINDOW_SIZE = 5 \<and> map_of RATES_MS ''TEMP'' = Some 500
     \<and> (duration_ms < 2500 \<longrightarrow> check_alert_policy duration_ms ac r = Inr r)
     \<and> (2500 \<le> duration_ms \<longrightarrow>
          (\<exists>r'. check_alert_policy duration_ms ac r = Inr r'
             \<and> (ok r' \<longleftrightarrow> ok r \<and> n \<noteq> 0)
             \<and> (stderr r' = (if n = 0 then stderr r @ [NoTempAlert duration_ms 2500] else stderr r))))"
  using assms
  by (auto simp: check_alert_policy_eq WINDOW_SIZE_def RATES_MS_def)

theorem alert_policy_witness:
  "[''TEMP'' \<mapsto> 0, ''HUM'' \<mapsto> 3, ''PRESS'' \<mapsto> (1::int)] ''TEMP'' = Some 0 \<and> (0::int) \<le> 0
   \<and> check_alert_policy 2499 [''TEMP'' \<mapsto> 0, ''HUM'' \<mapsto> 3, ''PRESS'' \<mapsto> 1]
         \<lparr> ok = True, stderr = [], stdout = [] \<rparr>
       = Inr \<lparr> ok = True, stderr = [], stdout = [] \<rparr>
   \<and> (\<exists>r'. check_alert_policy 2500 [''TEMP'' \<mapsto> 0, ''HUM'' \<mapsto> 3, ''PRESS'' \<mapsto> 1]
              \<lparr> ok = True, stderr = [], stdout = [] \<rparr> = Inr r'
           \<and> \<not> ok r' \<and> stderr r' = [NoTempAlert 2500 2500])"
proof -
  define ac :: "string \<rightharpoonup> int" where "ac = [''TEMP'' \<mapsto> 0, ''HUM'' \<mapsto> 3, ''PRESS'' \<mapsto> 1]"
  define r where "r = \<lparr> ok = True, stderr = [], stdout = [] \<rparr>"
  have h: "ac ''TEMP'' = Some 0" by (simp add: ac_def)
  have z: "(0::int) \<le> 0" by simp
  have a: "check_alert_policy 2499 ac r = Inr r"
    using alert_policy [of ac 0 2499 r, OF h z] by simp
  have b: "\<exists>r'. check_alert_policy 2500 ac r = Inr r' \<and> \<not> ok r' \<and> stderr r' = [NoTempAlert 2500 2500]"
    using alert_policy [of ac 0 2500 r, OF h z] by (simp add: r_def)
  from h z a b show ?thesis
    unfolding ac_def r_def by blast
qed

lemma flagged_append: "flagged k (xs @ ys) = (flagged k xs \<or> flagged k ys)"
  by (simp add: flagged_def list_ex_iff) blast

lemma flagged_low_messages:
  "flagged k (map (low_message sc ex) (filter (low sc ex) ks)) = (k \<in> set ks \<and> low sc ex k)"
  by (auto simp: flagged_def list_ex_iff low_message_def)

lemma flagged_other [simp]:
  "flagged k [] = False"
  "flagged k [NoTempAlert a b] = False"
  "flagged k [CheckFailed] = False"
  by (simp_all add: flagged_def)

lemma check_log_eq:
  fixes log_text :: string and duration_ms :: int
  defines "ls \<equiv> readlines log_text"
  defines "ex \<equiv> [''TEMP'' \<mapsto> max 1 (duration_ms div 500 - 1), ''HUM'' \<mapsto> max 1 (duration_ms div 700 - 1),
          ''PRESS'' \<mapsto> max 1 (duration_ms div 1200 - 1)]"
  defines "sc \<equiv> [''TEMP'' \<mapsto> tally ''SAMPLE'' 4 ''TEMP'' ls, ''HUM'' \<mapsto> tally ''SAMPLE'' 4 ''HUM'' ls, ''PRESS'' \<mapsto> tally ''SAMPLE'' 4 ''PRESS'' ls]"
  defines "ac \<equiv> [''TEMP'' \<mapsto> tally ''ALERT'' 5 ''TEMP'' ls, ''HUM'' \<mapsto> tally ''ALERT'' 5 ''HUM'' ls, ''PRESS'' \<mapsto> tally ''ALERT'' 5 ''PRESS'' ls]"
  defines "lows \<equiv> map (low_message sc ex) (filter (low sc ex) SENSORS)"
  defines "no_alert \<equiv> 2500 \<le> duration_ms \<and> tally ''ALERT'' 5 ''TEMP'' ls < 1"
  shows "\<exists>out. check_log log_text duration_ms = Inr out
     \<and> total_lines (counted out) = int (length ls)
     \<and> sample_counts (counted out) = sc
     \<and> alert_counts (counted out) = ac
     \<and> expected out = ex
     \<and> exit_code out = (if list_ex (low sc ex) SENSORS \<or> no_alert then 1 else 0)
     \<and> ok (printed out) = (\<not> (list_ex (low sc ex) SENSORS \<or> no_alert))
     \<and> stderr (printed out) =
          lows @ (if no_alert then [NoTempAlert duration_ms 2500] else [])
               @ (if list_ex (low sc ex) SENSORS \<or> no_alert then [CheckFailed] else [])"
proof -
  obtain st where st: "count_lines ls initial_counts = Inr st"
    and t: "total_lines st = int (length ls)"
    and s: "sample_counts st = sc" and a: "alert_counts st = ac"
    using count_lines_initial [of ls] unfolding sc_def ac_def by blast
  have keys: "\<And>k. k \<in> set SENSORS \<Longrightarrow> sc k \<noteq> None \<and> ex k \<noteq> None"
    by (auto simp: SENSORS_def sc_def ex_def)
  have c1: "check_sample_counts SENSORS sc ex \<lparr> ok = True, stderr = [], stdout = [] \<rparr>
      = Inr \<lparr> ok = \<not> list_ex (low sc ex) SENSORS, stderr = lows, stdout = [] \<rparr>"
    by (simp add: check_sample_counts_eq [OF keys] lows_def)
  have temp: "ac ''TEMP'' = Some (tally ''ALERT'' 5 ''TEMP'' ls)"
    by (simp add: ac_def)
  show ?thesis
    unfolding check_log_def
    by (simp add: fill_expected_RATES ls_def [symmetric] st ex_def [symmetric] s a c1
        check_alert_policy_eq [of ac _ duration_ms, OF temp] t no_alert_def)
qed

text \<open>
  C1. For every log and every \<open>duration_ms\<close> the script reaches its checks, and for each
  of the three sensor types TEMP, HUM and PRESS: the rate comes from the table (500, 700,
  1200), the threshold is \<open>max(1, duration_ms // rate - 1)\<close>, and the sensor is flagged if and only
  if its observed sample count is below the threshold. Every sensor is checked whatever
  the others gave, and a flagged sensor makes the run fail (exit code 1).
\<close>

theorem completeness_check:
  "\<exists>out. check_log log_text duration_ms = Inr out
     \<and> (\<forall>k \<in> {''TEMP'', ''HUM'', ''PRESS''}. \<exists>rate c e.
           map_of RATES_MS k = Some rate
         \<and> rate = (if k = ''TEMP'' then 500 else if k = ''HUM'' then 700 else 1200)
         \<and> sample_counts (counted out) k = Some c
         \<and> c = tally ''SAMPLE'' 4 k (readlines log_text)
         \<and> expected out k = Some e
         \<and> e = max 1 (duration_ms div rate - 1)
         \<and> (flagged k (stderr (printed out)) \<longleftrightarrow> c < e)
         \<and> (SampleCountTooLow k c e \<in> set (stderr (printed out)) \<longleftrightarrow> c < e)
         \<and> (c < e \<longrightarrow> exit_code out = 1 \<and> \<not> ok (printed out)))"
proof -
  define ls where "ls = readlines log_text"
  define ex where "ex = [''TEMP'' \<mapsto> max 1 (duration_ms div 500 - 1), ''HUM'' \<mapsto> max 1 (duration_ms div 700 - 1),
          ''PRESS'' \<mapsto> max 1 (duration_ms div 1200 - 1)]"
  define sc where "sc = [''TEMP'' \<mapsto> tally ''SAMPLE'' 4 ''TEMP'' ls, ''HUM'' \<mapsto> tally ''SAMPLE'' 4 ''HUM'' ls, ''PRESS'' \<mapsto> tally ''SAMPLE'' 4 ''PRESS'' ls]"
  define no_alert where "no_alert \<longleftrightarrow> 2500 \<le> duration_ms \<and> tally ''ALERT'' 5 ''TEMP'' ls < 1"
  define fails where "fails \<longleftrightarrow> list_ex (low sc ex) SENSORS \<or> no_alert"
  from check_log_eq [of log_text duration_ms]
  obtain out where out: "check_log log_text duration_ms = Inr out"
    and s: "sample_counts (counted out) = sc"
    and e: "expected out = ex"
    and x: "exit_code out = (if fails then 1 else 0)"
    and k: "ok (printed out) = (\<not> fails)"
    and m: "stderr (printed out) =
          map (low_message sc ex) (filter (low sc ex) SENSORS)
            @ (if no_alert then [NoTempAlert duration_ms 2500] else [])
            @ (if fails then [CheckFailed] else [])"
    unfolding ls_def ex_def sc_def no_alert_def fails_def by blast
  have fl: "flagged k (stderr (printed out)) = (k \<in> set SENSORS \<and> low sc ex k)" for k
    by (simp add: m flagged_append flagged_low_messages)
  have mem: "SampleCountTooLow k c n \<in> set (stderr (printed out))
      \<longleftrightarrow> k \<in> set SENSORS \<and> low sc ex k \<and> c = the (sc k) \<and> n = the (ex k)" for k c n
    by (auto simp: m low_message_def)
  have ex1: "low sc ex k \<Longrightarrow> k \<in> set SENSORS \<Longrightarrow> fails" for k
    by (auto simp: fails_def list_ex_iff)
  have core: "(flagged k (stderr (printed out)) \<longleftrightarrow> c < n)
         \<and> (SampleCountTooLow k c n \<in> set (stderr (printed out)) \<longleftrightarrow> c < n)
         \<and> (c < n \<longrightarrow> exit_code out = 1 \<and> \<not> ok (printed out))"
    if "k \<in> set SENSORS" and "sc k = Some c" and "ex k = Some n" for k c n
  proof -
    have l: "low sc ex k \<longleftrightarrow> c < n"
      using that by (simp add: low_def)
    have "c < n \<Longrightarrow> fails"
      using ex1 [of k] l that(1) by simp
    then show ?thesis
      using that l by (simp add: fl mem x k)
  qed
  have "\<exists>rate c e.
           map_of RATES_MS k = Some rate
         \<and> rate = (if k = ''TEMP'' then 500 else if k = ''HUM'' then 700 else 1200)
         \<and> sample_counts (counted out) k = Some c
         \<and> c = tally ''SAMPLE'' 4 k (readlines log_text)
         \<and> expected out k = Some e
         \<and> e = max 1 (duration_ms div rate - 1)
         \<and> (flagged k (stderr (printed out)) \<longleftrightarrow> c < e)
         \<and> (SampleCountTooLow k c e \<in> set (stderr (printed out)) \<longleftrightarrow> c < e)
         \<and> (c < e \<longrightarrow> exit_code out = 1 \<and> \<not> ok (printed out))"
    if lit: "k \<in> {''TEMP'', ''HUM'', ''PRESS''}" for k
  proof -
    from lit have that: "k \<in> set SENSORS"
      by (auto simp: SENSORS_def)
    define rate :: int where "rate = (if k = ''TEMP'' then 500 else if k = ''HUM'' then 700 else 1200)"
    define c where "c = tally ''SAMPLE'' 4 k (readlines log_text)"
    define n where "n = max 1 (duration_ms div rate - 1)"
    from lit have cases: "k = ''TEMP'' \<or> k = ''HUM'' \<or> k = ''PRESS''"
      by auto
    have r: "map_of RATES_MS k = Some rate"
      using cases by (auto simp: RATES_MS_def rate_def)
    have sk: "sc k = Some c"
      using cases by (auto simp: sc_def c_def ls_def)
    have ek: "ex k = Some n"
      using cases by (auto simp: ex_def n_def rate_def)
    from core [OF that sk ek] r sk ek show ?thesis
      unfolding s e rate_def [symmetric] c_def [symmetric]
      by (simp add: n_def)
  qed
  with out show ?thesis by blast
qed


theorem completeness_check_witness:
  "\<exists>out. check_log press_log 5000 = Inr out
     \<and> sample_counts (counted out) ''PRESS'' = Some 2 \<and> expected out ''PRESS'' = Some 3
     \<and> flagged ''PRESS'' (stderr (printed out))
     \<and> SampleCountTooLow ''PRESS'' 2 3 \<in> set (stderr (printed out))
     \<and> sample_counts (counted out) ''HUM'' = Some 6 \<and> expected out ''HUM'' = Some 6
     \<and> \<not> flagged ''HUM'' (stderr (printed out))
     \<and> sample_counts (counted out) ''TEMP'' = Some 1 \<and> expected out ''TEMP'' = Some 9
     \<and> flagged ''TEMP'' (stderr (printed out))
     \<and> exit_code out = 1"
proof -
  have t: "tally ''SAMPLE'' 4 ''TEMP'' (readlines press_log) = 1"
    by code_simp
  have h: "tally ''SAMPLE'' 4 ''HUM'' (readlines press_log) = 6"
    by code_simp
  have p: "tally ''SAMPLE'' 4 ''PRESS'' (readlines press_log) = 2"
    by code_simp
  from completeness_check [of press_log 5000] obtain out
    where out: "check_log press_log 5000 = Inr out"
      and all: "\<And>k. k \<in> {''TEMP'', ''HUM'', ''PRESS''} \<Longrightarrow> \<exists>rate c e.
           map_of RATES_MS k = Some rate
         \<and> rate = (if k = ''TEMP'' then 500 else if k = ''HUM'' then 700 else 1200)
         \<and> sample_counts (counted out) k = Some c
         \<and> c = tally ''SAMPLE'' 4 k (readlines press_log)
         \<and> expected out k = Some e
         \<and> e = max 1 (5000 div rate - 1)
         \<and> (flagged k (stderr (printed out)) \<longleftrightarrow> c < e)
         \<and> (SampleCountTooLow k c e \<in> set (stderr (printed out)) \<longleftrightarrow> c < e)
         \<and> (c < e \<longrightarrow> exit_code out = 1 \<and> \<not> ok (printed out))"
    by blast
  from all [of "''TEMP''"] all [of "''HUM''"] all [of "''PRESS''"] out show ?thesis
    by (simp add: t h p)
qed

text \<open>
  C8. For every fixed positive rate \<open>R\<close>, \<open>expected(D, R) = max(1, floor(D / R) - 1)\<close> is
  computed without error and is monotonically non-decreasing in the duration \<open>D\<close>:
  for all \<open>D1 \<le> D2\<close>, \<open>expected(D1, R) \<le> expected(D2, R)\<close>.
\<close>

theorem expected_count_mono:
  assumes "0 < R" and "D1 \<le> D2"
  shows "\<exists>e1 e2. expected_count D1 R = Inr e1 \<and> expected_count D2 R = Inr e2
           \<and> e1 = max 1 (D1 div R - 1) \<and> e2 = max 1 (D2 div R - 1) \<and> e1 \<le> e2"
proof -
  from assms have "D1 div R \<le> D2 div R"
    by (simp add: zdiv_mono1)
  with assms(1) show ?thesis
    by (simp add: expected_count_def floordiv_def)
qed

theorem expected_count_mono_witness:
  "(0::int) < 500 \<and> (1200::int) \<le> 5000
   \<and> expected_count 1200 500 = Inr 1 \<and> expected_count 5000 500 = Inr 9"
  using expected_count_mono [of 500 1200 5000]
  by (simp add: expected_count_def floordiv_def)

section \<open>Properties of parse\_logs.py\<close>

lemma getitem_Cons_0: "getitem (x # xs) 0 = Inr x"
  by (simp add: getitem_def)

lemma sample_of_converts:
  assumes "line_fields l = parts" and "converts F I l"
  shows "sample_of F I parts = Inr (the_sample F I l)"
  using assms
  by (auto simp: sample_of_def converts_def getitem_def the_sample_def Let_def split: sum.splits)

lemma sample_of_fails:
  assumes "line_fields l = parts" and "\<not> converts F I l" and "4 \<le> length parts"
  shows "isl (sample_of F I parts)"
  using assms
  by (auto simp: sample_of_def converts_def getitem_def Let_def split: sum.splits)

lemma alert_of_converts:
  assumes "line_fields l = parts" and "converts F I l" and "5 \<le> length parts"
  shows "alert_of F I parts = Inr (the_alert F I l)"
  using assms
  by (auto simp: alert_of_def converts_def getitem_def the_alert_def Let_def split: sum.splits)

lemma alert_of_fails:
  assumes "line_fields l = parts" and "\<not> converts F I l" and "5 \<le> length parts"
  shows "isl (alert_of F I parts)"
  using assms
  by (auto simp: alert_of_def converts_def getitem_def Let_def split: sum.splits)

lemma parse_line_eq:
  "parse_line F I l (ss, as) =
     Inr (if well_formed_sample F I l then (ss @ [the_sample F I l], as)
          else if well_formed_alert F I l then (ss, as @ [the_alert F I l])
          else (ss, as))"
proof (cases "strip l = []")
  case True
  then show ?thesis
    by (simp add: parse_line_def well_formed_sample_def well_formed_alert_def blank_not_record)
next
  case False
  obtain f0 fs where f: "line_fields l = f0 # fs"
    using line_fields_nonempty [of l] by (cases "line_fields l") auto
  then have s: "split (strip l) (CHR ''|'') = f0 # fs"
    by (simp add: line_fields_def)
  note g = getitem_Cons_0
  consider (sample) "f0 = ''SAMPLE''" "4 \<le> length (f0 # fs)"
    | (alert) "f0 = ''ALERT''" "5 \<le> length (f0 # fs)"
    | (other) "\<not> (f0 = ''SAMPLE'' \<and> 4 \<le> length (f0 # fs))" "\<not> (f0 = ''ALERT'' \<and> 5 \<le> length (f0 # fs))"
    by blast
  then show ?thesis
  proof cases
    case sample
    then have r: "is_record ''SAMPLE'' 4 l" "\<not> is_record ''ALERT'' 5 l"
      by (simp_all add: is_record_def f)
    show ?thesis
    proof (cases "converts F I l")
      case True
      from sample_of_converts [OF f True] show ?thesis
        using False sample r True
        by (simp add: parse_line_def Let_def s g well_formed_sample_def)
    next
      case c: False
      from sample_of_fails [OF f c sample(2)] obtain e where "sample_of F I (f0 # fs) = Inl e"
        by (cases "sample_of F I (f0 # fs)") auto
      then show ?thesis
        using False sample r c
        by (simp add: parse_line_def Let_def s g well_formed_sample_def well_formed_alert_def)
    qed
  next
    case alert
    then have r: "\<not> is_record ''SAMPLE'' 4 l" "is_record ''ALERT'' 5 l"
      by (simp_all add: is_record_def f)
    show ?thesis
    proof (cases "converts F I l")
      case True
      from alert_of_converts [OF f True alert(2)] show ?thesis
        using False alert r True
        by (simp add: parse_line_def Let_def s g well_formed_sample_def well_formed_alert_def)
    next
      case c: False
      from alert_of_fails [OF f c alert(2)] obtain e where "alert_of F I (f0 # fs) = Inl e"
        by (cases "alert_of F I (f0 # fs)") auto
      then show ?thesis
        using False alert r c
        by (simp add: parse_line_def Let_def s g well_formed_sample_def well_formed_alert_def)
    qed
  next
    case other
    then have r: "\<not> is_record ''SAMPLE'' 4 l" "\<not> is_record ''ALERT'' 5 l"
      by (simp_all add: is_record_def f)
    show ?thesis
      using False other r
      by (auto simp: parse_line_def Let_def s g well_formed_sample_def well_formed_alert_def)
  qed
qed

lemma parse_lines_eq:
  "parse_lines F I ls (ss, as) =
     Inr (ss @ map (the_sample F I) (filter (well_formed_sample F I) ls),
          as @ map (the_alert F I) (filter (well_formed_alert F I) ls))"
proof (induction ls arbitrary: ss as)
  case Nil
  show ?case by simp
next
  case (Cons l ls)
  have x: "\<not> (well_formed_sample F I l \<and> well_formed_alert F I l)"
    by (auto simp: well_formed_sample_def well_formed_alert_def is_record_def split: list.splits)
  show ?case
    using x by (auto simp: parse_line_eq Cons.IH)
qed

lemma parse_log_eq:
  "parse_log F I log_text =
     Inr (DataFrame SAMPLE_KEYS (map (the_sample F I) (filter (well_formed_sample F I) (readlines log_text))),
          DataFrame ALERT_KEYS (map (the_alert F I) (filter (well_formed_alert F I) (readlines log_text))))"
  by (simp add: parse_log_def parse_lines_eq)

lemma first_field_record: "is_record tag n l \<longleftrightarrow> first_field l = tag \<and> n \<le> length (line_fields l)"
  using line_fields_nonempty [of l]
  by (auto simp: is_record_def first_field_def split: list.splits)

lemma not_skipped_sample:
  "\<not> skipped F I l \<and> first_field l = ''SAMPLE'' \<longleftrightarrow> well_formed_sample F I l"
  by (auto simp: skipped_def well_formed_sample_def first_field_record blank_not_record
      dest: blank_not_record [of l 4 "''SAMPLE''", unfolded first_field_record])

lemma not_skipped_alert:
  "\<not> skipped F I l \<and> first_field l = ''ALERT'' \<longleftrightarrow> well_formed_alert F I l"
  by (auto simp: skipped_def well_formed_alert_def first_field_record blank_not_record
      dest: blank_not_record [of l 5 "''ALERT''", unfolded first_field_record])

lemma length_filter_split:
  assumes "\<And>x. x \<in> set xs \<Longrightarrow> P x \<Longrightarrow> (A x \<noteq> B x)"
  shows "length (filter (\<lambda>x. P x \<and> A x) xs) + length (filter (\<lambda>x. P x \<and> B x) xs) = length (filter P xs)"
  using assms by (induction xs) auto

lemma not_skipped_one:
  "\<not> skipped F I l \<Longrightarrow> (first_field l = ''SAMPLE'') \<noteq> (first_field l = ''ALERT'')"
  by (auto simp: skipped_def)

lemma DataFrame_rows: "rows (DataFrame keys records) = records"
  by (simp add: DataFrame_def)

text \<open>
  C6. For every log text the parser returns (no exception leaves it), whatever the two
  conversions do. The samples are the records of exactly the lines that are not skipped
  and start with SAMPLE, the alerts those of the lines that are not skipped and start
  with ALERT, both in file order; so a skipped line (blank, unknown first field, fewer
  than 4 or 5 fields, a value or timestamp that does not convert) is in neither
  sequence, and every other line is in exactly one.
\<close>

theorem parse_log_skips:
  "\<exists>samples alerts.
     parse_log F I log_text = Inr (DataFrame SAMPLE_KEYS samples, DataFrame ALERT_KEYS alerts)
   \<and> samples = map (the_sample F I)
        (filter (\<lambda>l. \<not> skipped F I l \<and> first_field l = ''SAMPLE'') (readlines log_text))
   \<and> alerts = map (the_alert F I)
        (filter (\<lambda>l. \<not> skipped F I l \<and> first_field l = ''ALERT'') (readlines log_text))
   \<and> length samples + length alerts = length (filter (\<lambda>l. \<not> skipped F I l) (readlines log_text))"
proof -
  have "length (filter (\<lambda>l. \<not> skipped F I l \<and> first_field l = ''SAMPLE'') (readlines log_text))
      + length (filter (\<lambda>l. \<not> skipped F I l \<and> first_field l = ''ALERT'') (readlines log_text))
      = length (filter (\<lambda>l. \<not> skipped F I l) (readlines log_text))"
    by (rule length_filter_split) (rule not_skipped_one)
  then show ?thesis
    by (simp add: parse_log_eq not_skipped_sample not_skipped_alert)
qed

theorem parse_log_skips_witness:
  "parse_log decimal_float truncate messy_log =
     Inr (DataFrame SAMPLE_KEYS [\<lparr> type = ''TEMP'', val = 5 / 2, ts_ms = 10 \<rparr>],
          DataFrame ALERT_KEYS [\<lparr> type = ''TEMP'', val = 7 / 2, ts_ms = 30, info = ''high'' \<rparr>])
   \<and> length (filter (\<lambda>l. \<not> skipped decimal_float truncate l) (readlines messy_log)) = 2
   \<and> length (readlines messy_log) = 7"
proof -
  have e: "parse_log decimal_float truncate messy_log =
     Inr (DataFrame SAMPLE_KEYS [\<lparr> type = ''TEMP'', val = 5 / 2, ts_ms = 10 \<rparr>],
          DataFrame ALERT_KEYS [\<lparr> type = ''TEMP'', val = 7 / 2, ts_ms = 30, info = ''high'' \<rparr>])"
    by code_simp
  have n: "length (readlines messy_log) = 7"
    by code_simp
  from parse_log_skips [of decimal_float truncate messy_log] obtain samples alerts
    where p: "parse_log decimal_float truncate messy_log
                = Inr (DataFrame SAMPLE_KEYS samples, DataFrame ALERT_KEYS alerts)"
      and l: "length samples + length alerts
                = length (filter (\<lambda>l. \<not> skipped decimal_float truncate l) (readlines messy_log))"
    by blast
  from e p have "rows (DataFrame SAMPLE_KEYS samples)
        = rows (DataFrame SAMPLE_KEYS [\<lparr> type = ''TEMP'', val = 5 / 2, ts_ms = 10 \<rparr>])"
    and "rows (DataFrame ALERT_KEYS alerts)
        = rows (DataFrame ALERT_KEYS [\<lparr> type = ''TEMP'', val = 7 / 2, ts_ms = 30, info = ''high'' \<rparr>])"
    by simp_all
  then have "length samples = 1" and "length alerts = 1"
    unfolding DataFrame_rows by simp_all
  with l have "length (filter (\<lambda>l. \<not> skipped decimal_float truncate l) (readlines messy_log)) = 2"
    by simp
  with e n show ?thesis
    by blast
qed

lemma split_from_no_sep:
  "sep \<notin> set cur \<Longrightarrow> \<forall>f \<in> set (split_from sep cur s). sep \<notin> set f"
proof (induction s arbitrary: cur)
  case Nil
  then show ?case by simp
next
  case (Cons a s)
  show ?case
  proof (cases "a = sep")
    case True
    with Cons.IH [of "[]"] Cons.prems show ?thesis by simp
  next
    case False
    with Cons.IH [of "a # cur"] Cons.prems show ?thesis by simp
  qed
qed

lemma split_no_sep: "f \<in> set (split s sep) \<Longrightarrow> sep \<notin> set f"
  using split_from_no_sep [of sep "[]" s] by (simp add: split_def)

text \<open>
  C10. For every well-formed ALERT line (first field ALERT, at least five fields, value
  and timestamp convert) the parser appends one alert whose \<open>info\<close> is the fifth
  \<open>|\<close>-separated field of the stripped line and nothing more: it holds no \<open>|\<close>, so
  whatever follows the fifth field is dropped.
\<close>

theorem alert_info_is_fifth_field:
  assumes "first_field l = ''ALERT''" and "5 \<le> length (split (strip l) (CHR ''|''))"
    and "converts F I l"
  shows "\<exists>a. parse_line F I l (ss, as) = Inr (ss, as @ [a])
           \<and> info a = split (strip l) (CHR ''|'') ! 4
           \<and> CHR ''|'' \<notin> set (info a)"
proof -
  have r: "is_record ''ALERT'' 5 l"
    using assms(1,2) by (simp add: first_field_record line_fields_def)
  then have w: "well_formed_alert F I l" and n: "\<not> well_formed_sample F I l"
    using assms(3) by (auto simp: well_formed_alert_def well_formed_sample_def first_field_record)
  have p: "parse_line F I l (ss, as) = Inr (ss, as @ [the_alert F I l])"
    using w n by (simp add: parse_line_eq)
  have i: "info (the_alert F I l) = split (strip l) (CHR ''|'') ! 4"
    by (simp add: the_alert_def line_fields_def Let_def)
  have "split (strip l) (CHR ''|'') ! 4 \<in> set (split (strip l) (CHR ''|''))"
    using assms(2) by simp
  then have "CHR ''|'' \<notin> set (split (strip l) (CHR ''|'') ! 4)"
    by (rule split_no_sep)
  with p i show ?thesis by simp
qed

theorem alert_info_is_fifth_field_witness:
  "first_field six_field_alert = ''ALERT''
   \<and> 5 \<le> length (split (strip six_field_alert) (CHR ''|''))
   \<and> converts decimal_float truncate six_field_alert
   \<and> (\<exists>a. parse_line decimal_float truncate six_field_alert ([], []) = Inr ([], [a])
          \<and> info a = ''high'')"
proof -
  have h1: "first_field six_field_alert = ''ALERT''"
    by code_simp
  have h2: "5 \<le> length (split (strip six_field_alert) (CHR ''|''))"
    by code_simp
  have h3: "converts decimal_float truncate six_field_alert"
    by code_simp
  have f: "split (strip six_field_alert) (CHR ''|'') ! 4 = ''high''"
    by code_simp
  from alert_info_is_fifth_field [OF h1 h2 h3, of "[]" "[]"] f h1 h2 h3 show ?thesis
    by auto
qed

lemma length_filter_conj_le:
  "length (filter (\<lambda>x. P x \<and> Q x) xs) \<le> length (filter P xs)"
  by (induction xs) auto

lemma length_filter_conj_eq:
  "length (filter (\<lambda>x. P x \<and> Q x) xs) = length (filter P xs) \<longleftrightarrow> (\<forall>x \<in> set xs. P x \<longrightarrow> Q x)"
proof (induction xs)
  case Nil
  show ?case by simp
next
  case (Cons x xs)
  have le: "length (filter (\<lambda>x. P x \<and> Q x) xs) \<le> length (filter P xs)"
    by (rule length_filter_conj_le)
  show ?case
    using Cons.IH le by auto
qed

lemma group_count_samples:
  "group_count (DataFrame keys (map (the_sample F I) (filter (well_formed_sample F I) ls))) k
     = int (length (filter (\<lambda>l. (is_record ''SAMPLE'' 4 l \<and> record_typ l = k) \<and> converts F I l) ls))"
proof -
  have "filter (\<lambda>r. type r = k) (map (the_sample F I) (filter (well_formed_sample F I) ls))
      = map (the_sample F I) (filter (\<lambda>l. (is_record ''SAMPLE'' 4 l \<and> record_typ l = k) \<and> converts F I l) ls)"
    by (induction ls) (auto simp: well_formed_sample_def the_sample_def record_typ_def Let_def)
  then show ?thesis
    by (simp add: group_count_def DataFrame_rows)
qed

lemma group_count_alerts:
  "group_count (DataFrame keys (map (the_alert F I) (filter (well_formed_alert F I) ls))) k
     = int (length (filter (\<lambda>l. (is_record ''ALERT'' 5 l \<and> record_typ l = k) \<and> converts F I l) ls))"
proof -
  have "filter (\<lambda>r. type r = k) (map (the_alert F I) (filter (well_formed_alert F I) ls))
      = map (the_alert F I) (filter (\<lambda>l. (is_record ''ALERT'' 5 l \<and> record_typ l = k) \<and> converts F I l) ls)"
    by (induction ls) (auto simp: well_formed_alert_def the_alert_def record_typ_def Let_def)
  then show ?thesis
    by (simp add: group_count_def DataFrame_rows)
qed

text \<open>
  C7, as stated, fails: on the one-line log \<open>SAMPLE|TEMP|abc|1000\<close> check\_log counts
  one TEMP sample, while parse\_log drops the line (its value is no number) and the
  TEMP group of its samples is empty.
\<close>

theorem counts_differ_on_bad_number:
  "sample_counts (counted (projr (check_log bad_number_log 1000))) ''TEMP'' = Some 1
   \<and> group_count (fst (projr (parse_log decimal_float truncate bad_number_log))) ''TEMP'' = 0"
  by code_simp

text \<open>
  C7, amended. For every log text and each of TEMP, HUM and PRESS, the sample (alert)
  count of check\_log is at least the size of that sensor's group among the samples
  (alerts) of parse\_log, and the two are equal exactly when every SAMPLE line with at
  least 4 fields (ALERT line with at least 5 fields) of that sensor type has a value and
  a timestamp that convert: check\_log counts without converting any field.
\<close>

theorem counts_agree_up_to_conversion:
  "\<exists>out samples alerts.
      check_log log_text duration_ms = Inr out
    \<and> parse_log F I log_text = Inr (samples, alerts)
    \<and> (\<forall>k \<in> {''TEMP'', ''HUM'', ''PRESS''}. \<exists>c a.
          sample_counts (counted out) k = Some c \<and> alert_counts (counted out) k = Some a
        \<and> group_count samples k \<le> c \<and> group_count alerts k \<le> a
        \<and> (group_count samples k = c \<longleftrightarrow>
             (\<forall>l \<in> set (readlines log_text).
                is_record ''SAMPLE'' 4 l \<and> record_typ l = k \<longrightarrow> converts F I l))
        \<and> (group_count alerts k = a \<longleftrightarrow>
             (\<forall>l \<in> set (readlines log_text).
                is_record ''ALERT'' 5 l \<and> record_typ l = k \<longrightarrow> converts F I l)))"
proof -
  define ls where "ls = readlines log_text"
  from check_log_eq [of log_text duration_ms]
  obtain out where out: "check_log log_text duration_ms = Inr out"
    and s: "sample_counts (counted out) = [''TEMP'' \<mapsto> tally ''SAMPLE'' 4 ''TEMP'' ls,
          ''HUM'' \<mapsto> tally ''SAMPLE'' 4 ''HUM'' ls, ''PRESS'' \<mapsto> tally ''SAMPLE'' 4 ''PRESS'' ls]"
    and a: "alert_counts (counted out) = [''TEMP'' \<mapsto> tally ''ALERT'' 5 ''TEMP'' ls,
          ''HUM'' \<mapsto> tally ''ALERT'' 5 ''HUM'' ls, ''PRESS'' \<mapsto> tally ''ALERT'' 5 ''PRESS'' ls]"
    unfolding ls_def by blast
  define samples where
    "samples = DataFrame SAMPLE_KEYS (map (the_sample F I) (filter (well_formed_sample F I) ls))"
  define alerts where
    "alerts = DataFrame ALERT_KEYS (map (the_alert F I) (filter (well_formed_alert F I) ls))"
  have p: "parse_log F I log_text = Inr (samples, alerts)"
    by (simp add: parse_log_eq samples_def alerts_def ls_def)
  have "\<exists>c a.
          sample_counts (counted out) k = Some c \<and> alert_counts (counted out) k = Some a
        \<and> group_count samples k \<le> c \<and> group_count alerts k \<le> a
        \<and> (group_count samples k = c \<longleftrightarrow>
             (\<forall>l \<in> set ls. is_record ''SAMPLE'' 4 l \<and> record_typ l = k \<longrightarrow> converts F I l))
        \<and> (group_count alerts k = a \<longleftrightarrow>
             (\<forall>l \<in> set ls. is_record ''ALERT'' 5 l \<and> record_typ l = k \<longrightarrow> converts F I l))"
    if "k \<in> {''TEMP'', ''HUM'', ''PRESS''}" for k
  proof -
    have sk: "sample_counts (counted out) k = Some (tally ''SAMPLE'' 4 k ls)"
      using that by (auto simp: s)
    have ak: "alert_counts (counted out) k = Some (tally ''ALERT'' 5 k ls)"
      using that by (auto simp: a)
    have gs: "group_count samples k
        = int (length (filter (\<lambda>l. (is_record ''SAMPLE'' 4 l \<and> record_typ l = k) \<and> converts F I l) ls))"
      unfolding samples_def by (rule group_count_samples)
    have ga: "group_count alerts k
        = int (length (filter (\<lambda>l. (is_record ''ALERT'' 5 l \<and> record_typ l = k) \<and> converts F I l) ls))"
      unfolding alerts_def by (rule group_count_alerts)
    have le_s: "length (filter (\<lambda>l. (is_record ''SAMPLE'' 4 l \<and> record_typ l = k) \<and> converts F I l) ls)
        \<le> length (filter (\<lambda>l. is_record ''SAMPLE'' 4 l \<and> record_typ l = k) ls)"
      by (rule length_filter_conj_le)
    have le_a: "length (filter (\<lambda>l. (is_record ''ALERT'' 5 l \<and> record_typ l = k) \<and> converts F I l) ls)
        \<le> length (filter (\<lambda>l. is_record ''ALERT'' 5 l \<and> record_typ l = k) ls)"
      by (rule length_filter_conj_le)
    have eq_s: "length (filter (\<lambda>l. (is_record ''SAMPLE'' 4 l \<and> record_typ l = k) \<and> converts F I l) ls)
        = length (filter (\<lambda>l. is_record ''SAMPLE'' 4 l \<and> record_typ l = k) ls)
      \<longleftrightarrow> (\<forall>l \<in> set ls. is_record ''SAMPLE'' 4 l \<and> record_typ l = k \<longrightarrow> converts F I l)"
      by (rule length_filter_conj_eq)
    have eq_a: "length (filter (\<lambda>l. (is_record ''ALERT'' 5 l \<and> record_typ l = k) \<and> converts F I l) ls)
        = length (filter (\<lambda>l. is_record ''ALERT'' 5 l \<and> record_typ l = k) ls)
      \<longleftrightarrow> (\<forall>l \<in> set ls. is_record ''ALERT'' 5 l \<and> record_typ l = k \<longrightarrow> converts F I l)"
      by (rule length_filter_conj_eq)
    show ?thesis
      unfolding sk ak gs ga tally_def
      using le_s le_a eq_s eq_a by simp
  qed
  with out p show ?thesis
    unfolding ls_def by blast
qed

theorem counts_agree_up_to_conversion_witness:
  "\<exists>out samples alerts.
      check_log messy_log 1000 = Inr out
    \<and> parse_log decimal_float truncate messy_log = Inr (samples, alerts)
    \<and> sample_counts (counted out) ''TEMP'' = Some 2 \<and> group_count samples ''TEMP'' = 1
    \<and> alert_counts (counted out) ''TEMP'' = Some 1 \<and> group_count alerts ''TEMP'' = 1"
proof -
  have e: "parse_log decimal_float truncate messy_log =
     Inr (DataFrame SAMPLE_KEYS [\<lparr> type = ''TEMP'', val = 5 / 2, ts_ms = 10 \<rparr>],
          DataFrame ALERT_KEYS [\<lparr> type = ''TEMP'', val = 7 / 2, ts_ms = 30, info = ''high'' \<rparr>])"
    by code_simp
  have c: "sample_counts (counted (projr (check_log messy_log 1000))) ''TEMP'' = Some 2"
    by code_simp
  have d: "alert_counts (counted (projr (check_log messy_log 1000))) ''TEMP'' = Some 1"
    by code_simp
  have g: "group_count (DataFrame SAMPLE_KEYS [\<lparr> type = ''TEMP'', val = 5 / 2, ts_ms = 10 \<rparr>]) ''TEMP'' = 1"
    by (simp add: group_count_def DataFrame_def)
  have h: "group_count (DataFrame ALERT_KEYS
             [\<lparr> type = ''TEMP'', val = 7 / 2, ts_ms = 30, info = ''high'' \<rparr>]) ''TEMP'' = 1"
    by (simp add: group_count_def DataFrame_def)
  from counts_agree_up_to_conversion [of messy_log 1000 decimal_float truncate]
  obtain out samples alerts where o: "check_log messy_log 1000 = Inr out"
    and p: "parse_log decimal_float truncate messy_log = Inr (samples, alerts)"
    by blast
  from o c d have "sample_counts (counted out) ''TEMP'' = Some 2"
    and "alert_counts (counted out) ''TEMP'' = Some 1"
    by simp_all
  moreover from e p g h have "group_count samples ''TEMP'' = 1" and "group_count alerts ''TEMP'' = 1"
    by simp_all
  ultimately show ?thesis
    using o p by blast
qed



lemma of_type_no_column:
  assumes "''type'' \<notin> set (columns df)"
  shows "of_type df s = Inl KeyError"
  using assms by (simp add: of_type_def column_def)





lemma rolling_mean_bad_window:
  "w < 1 \<Longrightarrow> rolling_mean w 1 xs = Inl ValueError"
  by (simp add: rolling_mean_def)











end
